theory Spec2Isabelle
  imports Main
begin

section \<open>Roles: the hierarchy reorderer of roles.go\<close>

text \<open>
  A \<^verbatim>\<open>*Role\<close> and a \<^verbatim>\<open>*Guild\<close> are addresses into a store; an address the store does
  not hold is the nil pointer, and reading through it is the panic \<open>NilPointer\<close>.
  Of the fields of \<^verbatim>\<open>Role\<close> only those that \<^verbatim>\<open>Move\<close> reads or writes are kept
  (\<^verbatim>\<open>ID\<close>, \<^verbatim>\<open>Position\<close>, \<^verbatim>\<open>Guild\<close>); of \<^verbatim>\<open>Guild\<close> its \<^verbatim>\<open>ID\<close> (here \<open>GuildID\<close>, the
  field name \<open>ID\<close> being taken by the role) and its \<^verbatim>\<open>Roles\<close> slice.
  A \<^verbatim>\<open>RoleMove{ID, Position}\<close> is the pair of its two fields.
\<close>

type_synonym addr = nat

record Role =
  ID :: string
  Position :: int
  Guild :: addr

record Guild =
  GuildID :: string
  Roles :: "addr list"

type_synonym RoleMove = "string \<times> int"

record store =
  roles :: "addr \<rightharpoonup> Role"
  guilds :: "addr \<rightharpoonup> Guild"

datatype error = ErrRolePositionBounds | ErrUnmovableDefaultRole | NilPointer

subsection \<open>The conversions of \<^verbatim>\<open>int(math.Min(float64(position), float64(r.Position)))\<close>\<close>

text \<open>
  Go's \<^verbatim>\<open>int\<close> is taken to be 64 bits wide. \<open>float64 x\<close> is the integer value of the
  double nearest to \<open>x\<close> (53 bits of significand, ties to even); it is \<open>x\<close> itself up
  to \<open>2 ^ 53\<close> in magnitude. \<open>int_of_float64\<close> converts back; the one value of
  \<open>float64\<close> on 64-bit integers that does not fit is \<open>2 ^ 63\<close>, where Go leaves the
  result to the implementation and the value written here is the one of amd64.
\<close>

fun bitlen :: "nat \<Rightarrow> nat" where
  "bitlen n = (if n = 0 then 0 else Suc (bitlen (n div 2)))"

declare bitlen.simps [simp del]

definition float64 :: "int \<Rightarrow> int" where
  "float64 x =
     (if \<bar>x\<bar> < 2 ^ 53 then x
      else let e = bitlen (nat \<bar>x\<bar>) - 53;
               q = \<bar>x\<bar> div 2 ^ e;
               r = \<bar>x\<bar> mod 2 ^ e;
               q' = (if r > 2 ^ (e - 1) \<or> (r = 2 ^ (e - 1) \<and> odd q) then q + 1 else q)
           in sgn x * q' * 2 ^ e)"

definition int_of_float64 :: "int \<Rightarrow> int" where
  "int_of_float64 v = (if - (2 ^ 63) \<le> v \<and> v < 2 ^ 63 then v else - (2 ^ 63))"

definition Move_min :: "int \<Rightarrow> int \<Rightarrow> int" where
  "Move_min position rpos = int_of_float64 (min (float64 position) (float64 rpos))"

definition Move_max :: "int \<Rightarrow> int \<Rightarrow> int" where
  "Move_max position rpos = int_of_float64 (max (float64 position) (float64 rpos))"

subsection \<open>\<^verbatim>\<open>Roles.Less\<close>, \<^verbatim>\<open>sort.Reverse\<close> and \<^verbatim>\<open>sort.Sort\<close>\<close>

text \<open>
  \<^verbatim>\<open>Roles.Less(i, j)\<close> is \<^verbatim>\<open>r[i].Position > r[j].Position\<close>; \<^verbatim>\<open>sort.Reverse\<close> swaps
  the two arguments of \<open>Less\<close>. The elements compared have all been read before, so
  a missing role cannot occur here; \<open>position_of\<close> gives it position \<open>0\<close>.

  \<^verbatim>\<open>sort.Sort\<close> belongs to Go's standard library. It is an insertion sort on the short
  slices it is given here, and it is written as one: every element is put in front of
  the first element that is not less than it, so equal elements keep their order.
\<close>

definition position_of :: "store \<Rightarrow> addr \<Rightarrow> int" where
  "position_of st a = (case roles st a of None \<Rightarrow> 0 | Some role \<Rightarrow> Position role)"

definition Less :: "store \<Rightarrow> addr \<Rightarrow> addr \<Rightarrow> bool" where
  "Less st i j = (position_of st i > position_of st j)"

definition Reverse :: "('a \<Rightarrow> 'a \<Rightarrow> bool) \<Rightarrow> 'a \<Rightarrow> 'a \<Rightarrow> bool" where
  "Reverse lt i j = lt j i"

fun insertion :: "('a \<Rightarrow> 'a \<Rightarrow> bool) \<Rightarrow> 'a \<Rightarrow> 'a list \<Rightarrow> 'a list" where
  "insertion lt x [] = [x]"
| "insertion lt x (y # ys) =
     (if lt y x then y # insertion lt x ys else x # y # ys)"

definition Sort :: "('a \<Rightarrow> 'a \<Rightarrow> bool) \<Rightarrow> 'a list \<Rightarrow> 'a list" where
  "Sort lt xs = foldr (insertion lt) xs []"

subsection \<open>\<^verbatim>\<open>Role.IsDefault\<close> and \<^verbatim>\<open>Role.Move\<close>\<close>

definition IsDefault :: "store \<Rightarrow> addr \<Rightarrow> error + bool" where
  "IsDefault st r =
     (case roles st r of
        None \<Rightarrow> Inl NilPointer
      | Some R \<Rightarrow>
          (case guilds st (Guild R) of
             None \<Rightarrow> Inl NilPointer
           | Some G \<Rightarrow> Inr (ID R = GuildID G)))"

text \<open>
  The first loop of \<^verbatim>\<open>Move\<close>: the roles of the guild, in slice order, whose id differs
  from the moved role's and whose position lies in \<open>[mn, mx]\<close>. \<open>None\<close> is the panic of
  reading a nil element of the slice.
\<close>

fun collect :: "store \<Rightarrow> string \<Rightarrow> int \<Rightarrow> int \<Rightarrow> addr list \<Rightarrow> addr list option" where
  "collect st rid mn mx [] = Some []"
| "collect st rid mn mx (a # as) =
     (case roles st a of
        None \<Rightarrow> None
      | Some role \<Rightarrow>
          (case collect st rid mn mx as of
             None \<Rightarrow> None
           | Some rest \<Rightarrow>
               Some (if ID role \<noteq> rid \<and> Position role \<le> mx \<and> Position role \<ge> mn
                     then a # rest else rest)))"

text \<open>
  The second loop: \<^verbatim>\<open>for p, i := min, 0; p <= max+1 && i < len(editedRoles); ...\<close>.
  Each step writes \<open>p\<close> into the role's position and appends the edit \<open>(ID, p)\<close>.
  \<open>mx\<close> is a value of \<open>int_of_float64\<close>, hence below \<open>2 ^ 63 - 1\<close>, and neither \<open>mx + 1\<close>
  nor \<open>p + 1\<close> wraps.
\<close>

fun assign :: "store \<Rightarrow> int \<Rightarrow> int \<Rightarrow> addr list \<Rightarrow> (store \<times> RoleMove list) option" where
  "assign st p mx [] = Some (st, [])"
| "assign st p mx (a # as) =
     (if p \<le> mx + 1 then
        (case roles st a of
           None \<Rightarrow> None
         | Some role \<Rightarrow>
             (case assign (st\<lparr>roles := (roles st)(a \<mapsto> role\<lparr>Position := p\<rparr>)\<rparr>) (p + 1) mx as of
                None \<Rightarrow> None
              | Some (st', edits) \<Rightarrow> Some (st', (ID role, p) # edits)))
      else Some (st, []))"

text \<open>
  \<open>Move st r position\<close> is \<open>Inl\<close> of the error returned (or of the panic) before
  anything is written, and otherwise \<open>Inr (st', g, edits)\<close>: the store after the
  positions were written, and the guild id and the batch of edits that are handed to
  \<^verbatim>\<open>Session.GuildRoleReorder\<close>, the remote call whose error \<^verbatim>\<open>Move\<close> returns unchanged.
\<close>

definition Move :: "store \<Rightarrow> addr \<Rightarrow> int \<Rightarrow> error + (store \<times> string \<times> RoleMove list)" where
  "Move st r position =
     (if position \<le> 0 then Inl ErrRolePositionBounds
      else
        (case IsDefault st r of
           Inl e \<Rightarrow> Inl e
         | Inr True \<Rightarrow> Inl ErrUnmovableDefaultRole
         | Inr False \<Rightarrow>
             (case roles st r of
                None \<Rightarrow> Inl NilPointer
              | Some R \<Rightarrow>
                  (case guilds st (Guild R) of
                     None \<Rightarrow> Inl NilPointer
                   | Some G \<Rightarrow>
                       (let mn = Move_min position (Position R);
                            mx = Move_max position (Position R)
                        in case collect st (ID R) mn mx (Roles G) of
                             None \<Rightarrow> Inl NilPointer
                           | Some editedRoles \<Rightarrow>
                               (let sorted = Sort (Reverse (Less st)) editedRoles;
                                    combined = (if position = mn then r # sorted
                                                else sorted @ [r])
                                in case assign st mn mx combined of
                                     None \<Rightarrow> Inl NilPointer
                                   | Some (st', edits) \<Rightarrow> Inr (st', GuildID G, edits)))))))"

text \<open>What a caller can observe of a result: the positions at the given addresses, and the batch.\<close>

definition observe ::
  "addr list \<Rightarrow> error + (store \<times> string \<times> RoleMove list) \<Rightarrow>
   error + (int option list \<times> string \<times> RoleMove list)" where
  "observe as res =
     (case res of
        Inl e \<Rightarrow> Inl e
      | Inr (st', g, edits) \<Rightarrow>
          Inr (map (\<lambda>a. map_option Position (roles st' a)) as, g, edits))"

text \<open>
  A store with one guild, at address \<open>0\<close> and of id \<open>g\<close>, whose roles are given as
  (id, position) pairs and stored at the addresses \<open>0, 1, 2, ...\<close> in that order.
\<close>

definition mk_store :: "(string \<times> int) list \<Rightarrow> addr list \<Rightarrow> store" where
  "mk_store rs order =
     \<lparr> roles = (\<lambda>a. if a < length rs
                    then Some \<lparr> ID = fst (rs ! a), Position = snd (rs ! a), Guild = 0 \<rparr>
                    else None),
       guilds = (\<lambda>a. if a = 0 then Some \<lparr> GuildID = ''g'', Roles = order \<rparr> else None) \<rparr>"

section \<open>Events: the handler registry, the dispatcher and the NATS bridge\<close>

text \<open>
  An \<^verbatim>\<open>EventHandler\<close> is an interface value: its \<^verbatim>\<open>Type()\<close> string and its \<^verbatim>\<open>Handle\<close>
  method, a callback that is opaque here and named by a number. A
  \<^verbatim>\<open>*eventHandlerInstance\<close> is a pointer to a wrapper allocated at registration; \<open>at\<close>
  is its address, and the comparison \<^verbatim>\<open>handlers[i] == ehi\<close> of two such pointers
  compares addresses.
\<close>

record EventHandler =
  Type :: string
  Handle :: nat

record eventHandlerInstance =
  at :: nat
  eventHandler :: EventHandler

text \<open>
  A slice is the elements up to its length together with its capacity. The registry
  never reads a backing array beyond the length of the slice it reads through, so the
  elements between length and capacity are not kept. \<open>nil\<close> is the nil slice.
\<close>

record 'a slice =
  elems :: "'a list"
  cap :: nat

definition nil :: "'a slice" where
  "nil = \<lparr> elems = [], cap = 0 \<rparr>"

text \<open>
  Go's \<^verbatim>\<open>append\<close>: the capacity stays when the result fits and is chosen by the
  runtime otherwise. \<open>grow c n\<close> stands for the capacity the runtime chooses for a
  slice of capacity \<open>c\<close> that must hold \<open>n\<close> elements; it is a parameter.
\<close>

definition go_append :: "(nat \<Rightarrow> nat \<Rightarrow> nat) \<Rightarrow> 'a slice \<Rightarrow> 'a list \<Rightarrow> 'a slice" where
  "go_append grow s xs =
     \<lparr> elems = elems s @ xs,
       cap = (if length (elems s) + length xs \<le> cap s then cap s
              else grow (cap s) (length (elems s) + length xs)) \<rparr>"

datatype event =
    Ready string "nat list"
  | GuildCreate nat
  | GuildUpdate nat
  | VoiceServerUpdate
  | VoiceStateUpdate
  | Other string

datatype loglevel = LogError | LogInformational | LogDebug

text \<open>
  What the code does to its collaborators, in the order it does it: a log line (level
  and format string), a subscription request to NATS, the calls of \<^verbatim>\<open>onInterface\<close>
  into the object graph and into \<^verbatim>\<open>State.OnInterface\<close>, and the invocation of a
  handler, either as a call (\<open>Call\<close>) or as a new goroutine (\<open>Go\<close>).
\<close>

datatype action =
    Log loglevel string
  | QueueSubscribe string string
  | SetGuildIds nat
  | SetSession nat
  | GoOnVoiceServerUpdate
  | GoOnVoiceStateUpdate
  | StateOnInterface event
  | Call eventHandlerInstance event
  | Go eventHandlerInstance event

text \<open>
  The fields of \<^verbatim>\<open>Session\<close> that this file of the source uses. \<open>State\<close> is \<open>None\<close> for
  a nil \<^verbatim>\<open>s.State\<close> and otherwise the error, if any, that \<^verbatim>\<open>State.OnInterface\<close>
  returns on an event; \<open>NATS\<close> is \<open>None\<close> for a nil connection and otherwise what
  \<^verbatim>\<open>QueueSubscribe(subject, queue, handler)\<close> returns: an error or a subscription.
  A nil map and a missing key both read as the nil slice, and the code writes a map
  only after it has made it or has found an element in it, so the two handler maps are
  total functions. With the struct are carried the two package-level maps
  \<^verbatim>\<open>natsSubscriptions\<close> (a key may hold a nil subscription) and
  \<^verbatim>\<open>registeredInterfaceProviders\<close> (each provider by the value its \<^verbatim>\<open>New()\<close> returns),
  and \<open>fresh\<close>, the address that the next allocated wrapper gets.
  The mutex \<^verbatim>\<open>handlersMu\<close> is not modelled: calls run one after the other.
\<close>

record Session =
  handlers :: "string \<Rightarrow> eventHandlerInstance slice"
  onceHandlers :: "string \<Rightarrow> eventHandlerInstance slice"
  SyncEvents :: bool
  State :: "(event \<Rightarrow> string option) option"
  sessionID :: string
  NATS :: "(string \<Rightarrow> string \<Rightarrow> string + nat) option"
  NatsMode :: int
  NatsQueueName :: string
  natsSubscriptions :: "string \<rightharpoonup> nat option"
  registeredInterfaceProviders :: "string \<rightharpoonup> event"
  fresh :: nat

definition interfaceEventType :: string where
  "interfaceEventType = ''__INTERFACE__''"

subsection \<open>Registration and removal\<close>

text \<open>The function returned by a registration: it removes one instance, or does nothing.\<close>

datatype token = NoOp | Remove string eventHandlerInstance

text \<open>
  The first loop of \<^verbatim>\<open>removeEventHandlerInstance\<close>, over the indices of the local
  slice \<^verbatim>\<open>handlers\<close>. The state is the backing array as seen through that slice and
  the value of \<^verbatim>\<open>s.handlers[t]\<close>. \<^verbatim>\<open>append(handlers[:i], handlers[i+1:]...)\<close> always
  fits: it moves the tail one place down inside the array, whose last element stays.
\<close>

fun removeLoop ::
  "eventHandlerInstance \<Rightarrow> nat \<Rightarrow> nat list \<Rightarrow>
   eventHandlerInstance list \<times> eventHandlerInstance slice \<Rightarrow>
   eventHandlerInstance list \<times> eventHandlerInstance slice" where
  "removeLoop ehi c [] (arr, tbl) = (arr, tbl)"
| "removeLoop ehi c (i # is) (arr, tbl) =
     removeLoop ehi c is
       (if at (arr ! i) = at ehi then
          (let arr' = take i arr @ drop (Suc i) arr @ [last arr]
           in (arr', \<lparr> elems = take (length arr - 1) arr', cap = c \<rparr>))
        else (arr, tbl))"

text \<open>
  The second loop, over the indices of the local slice \<^verbatim>\<open>onceHandlers\<close> of capacity
  \<open>c\<close>: \<^verbatim>\<open>s.onceHandlers[t] = append(onceHandlers[:i], handlers[i+1:]...)\<close>, where
  \<open>hs\<close> is the local slice \<^verbatim>\<open>handlers\<close> as the first loop left it.
  \<^verbatim>\<open>handlers[i+1:]\<close> panics when \<open>i + 1\<close> exceeds the length of \<open>handlers\<close> (\<open>None\<close>).
  When the result fits the capacity it is written into the array that the loop goes
  on reading; otherwise it goes to a new array.
\<close>

fun removeOnceLoop ::
  "(nat \<Rightarrow> nat \<Rightarrow> nat) \<Rightarrow> eventHandlerInstance \<Rightarrow> eventHandlerInstance list \<Rightarrow> nat \<Rightarrow>
   nat list \<Rightarrow> eventHandlerInstance list \<times> eventHandlerInstance slice \<Rightarrow>
   (eventHandlerInstance list \<times> eventHandlerInstance slice) option" where
  "removeOnceLoop grow ehi hs c [] (arr, tbl) = Some (arr, tbl)"
| "removeOnceLoop grow ehi hs c (i # is) (arr, tbl) =
     (if at (arr ! i) = at ehi then
        (if Suc i > length hs then None
         else
           (let new = take i arr @ drop (Suc i) hs
            in if length new \<le> c
               then removeOnceLoop grow ehi hs c is
                      (take (length arr) (new @ drop (length new) arr),
                       \<lparr> elems = new, cap = c \<rparr>)
               else removeOnceLoop grow ehi hs c is
                      (arr, \<lparr> elems = new, cap = grow c (length new) \<rparr>)))
      else removeOnceLoop grow ehi hs c is (arr, tbl))"

definition removeEventHandlerInstance ::
  "(nat \<Rightarrow> nat \<Rightarrow> nat) \<Rightarrow> Session \<Rightarrow> string \<Rightarrow> eventHandlerInstance \<Rightarrow> Session option" where
  "removeEventHandlerInstance grow s t ehi =
     (let h = handlers s t;
          (hs, tbl) = removeLoop ehi (cap h) [0..<length (elems h)] (elems h, h);
          s1 = s\<lparr>handlers := (handlers s)(t := tbl)\<rparr>;
          once = onceHandlers s1 t
      in case removeOnceLoop grow ehi hs (cap once) [0..<length (elems once)] (elems once, once) of
           None \<Rightarrow> None
         | Some (os, otbl) \<Rightarrow> Some (s1\<lparr>onceHandlers := (onceHandlers s1)(t := otbl)\<rparr>))"

definition invoke :: "(nat \<Rightarrow> nat \<Rightarrow> nat) \<Rightarrow> token \<Rightarrow> Session \<Rightarrow> Session option" where
  "invoke grow tok s =
     (case tok of NoOp \<Rightarrow> Some s | Remove t ehi \<Rightarrow> removeEventHandlerInstance grow s t ehi)"

definition addEventHandler ::
  "(nat \<Rightarrow> nat \<Rightarrow> nat) \<Rightarrow> Session \<Rightarrow> EventHandler \<Rightarrow> Session \<times> token" where
  "addEventHandler grow s eh =
     (let ehi = \<lparr> at = fresh s, eventHandler = eh \<rparr>
      in (s\<lparr>handlers := (handlers s)(Type eh := go_append grow (handlers s (Type eh)) [ehi]),
            fresh := Suc (fresh s)\<rparr>,
          Remove (Type eh) ehi))"

definition addEventHandlerOnce ::
  "(nat \<Rightarrow> nat \<Rightarrow> nat) \<Rightarrow> Session \<Rightarrow> EventHandler \<Rightarrow> Session \<times> token" where
  "addEventHandlerOnce grow s eh =
     (let ehi = \<lparr> at = fresh s, eventHandler = eh \<rparr>
      in (s\<lparr>onceHandlers := (onceHandlers s)(Type eh := go_append grow (onceHandlers s (Type eh)) [ehi]),
            fresh := Suc (fresh s)\<rparr>,
          Remove (Type eh) ehi))"

text \<open>
  \<^verbatim>\<open>AddHandler\<close> and \<^verbatim>\<open>AddHandlerOnce\<close>. \<^verbatim>\<open>handlerForInterface\<close> is defined in another
  file; its result on the handler given is the argument \<open>eh\<close>, \<open>None\<close> for nil.
  The result is the session, the function returned, and what was done meanwhile.
\<close>

definition subscribe :: "Session \<Rightarrow> EventHandler \<Rightarrow> Session \<times> action list" where
  "subscribe s eh =
     (case NATS s of
        None \<Rightarrow> (s, [])
      | Some conn \<Rightarrow>
          if NatsMode s = 1 then
            (let subject = (if Type eh = interfaceEventType then ''*'' else Type eh)
             in case natsSubscriptions s subject of
                  Some sub \<Rightarrow> (s, [])
                | None \<Rightarrow>
                    (case conn subject (NatsQueueName s) of
                       Inl err \<Rightarrow>
                         (s\<lparr>natsSubscriptions := (natsSubscriptions s)(subject \<mapsto> None)\<rparr>,
                          [Log LogInformational ''Subscribing to NATS event: %s'',
                           QueueSubscribe subject (NatsQueueName s),
                           Log LogError ''Could not subscribe to NATS event: %s'',
                           Log LogInformational ''%v''])
                     | Inr sub \<Rightarrow>
                         (s,
                          [Log LogInformational ''Subscribing to NATS event: %s'',
                           QueueSubscribe subject (NatsQueueName s),
                           Log LogInformational ''%v''])))
          else (s, []))"

definition AddHandler ::
  "(nat \<Rightarrow> nat \<Rightarrow> nat) \<Rightarrow> Session \<Rightarrow> EventHandler option \<Rightarrow> Session \<times> token \<times> action list" where
  "AddHandler grow s handler =
     (case handler of
        None \<Rightarrow> (s, NoOp, [Log LogError ''Invalid handler type, handler will never be called''])
      | Some eh \<Rightarrow>
          (let (s1, tr) = subscribe s eh;
               (s2, tok) = addEventHandler grow s1 eh
           in (s2, tok, tr)))"

definition AddHandlerOnce ::
  "(nat \<Rightarrow> nat \<Rightarrow> nat) \<Rightarrow> Session \<Rightarrow> EventHandler option \<Rightarrow> Session \<times> token \<times> action list" where
  "AddHandlerOnce grow s handler =
     (case handler of
        None \<Rightarrow> (s, NoOp, [Log LogError ''Invalid handler type, handler will never be called''])
      | Some eh \<Rightarrow>
          (let (s2, tok) = addEventHandlerOnce grow s eh
           in (s2, tok, [])))"

subsection \<open>Dispatch\<close>

text \<open>
  A callback is opaque. While \<^verbatim>\<open>handleEvent\<close> runs it holds the read lock of
  \<^verbatim>\<open>handlersMu\<close>, so a callback that is called (not spawned) cannot add or remove a
  handler before the dispatch is over: the write lock would never be granted.
\<close>

definition fire :: "Session \<Rightarrow> event \<Rightarrow> eventHandlerInstance \<Rightarrow> action" where
  "fire s i eh = (if SyncEvents s then Call eh i else Go eh i)"









text \<open>How often a trace invokes the instance at an address, called or spawned.\<close>

fun invokes :: "nat \<Rightarrow> action \<Rightarrow> bool" where
  "invokes a (Call eh i) = (at eh = a)"
| "invokes a (Go eh i) = (at eh = a)"
| "invokes a _ = False"

definition fired :: "nat \<Rightarrow> action list \<Rightarrow> nat" where
  "fired a tr = length (filter (invokes a) tr)"


text \<open>A session with no handler, no state and no bridge.\<close>

definition empty_session :: Session where
  "empty_session =
     \<lparr> handlers = (\<lambda>t. nil), onceHandlers = (\<lambda>t. nil), SyncEvents = True, State = None,
       sessionID = [], NATS = None, NatsMode = 0, NatsQueueName = [],
       natsSubscriptions = Map.empty, registeredInterfaceProviders = Map.empty, fresh = 0 \<rparr>"

text \<open>Moving to \<open>t\<close> and then back to \<open>p\<close>, as two calls of \<^verbatim>\<open>Move\<close> on the same role.\<close>

definition round_trip ::
  "store \<Rightarrow> addr \<Rightarrow> int \<Rightarrow> int \<Rightarrow> error + (store \<times> string \<times> RoleMove list)" where
  "round_trip st r t p =
     (case Move st r t of
        Inl e \<Rightarrow> Inl e
      | Inr (st1, g, edits) \<Rightarrow> Move st1 r p)"


text \<open>The addresses in the persistent and in the once table of a tag.\<close>

definition tables :: "Session \<Rightarrow> string \<Rightarrow> nat list \<times> nat list" where
  "tables s t = (map at (elems (handlers s t)), map at (elems (onceHandlers s t)))"

text \<open>
  Inputs for the examples: a handler of type \<open>T\<close> with callback \<open>n\<close>; a session with one
  persistent wildcard handler (at 0), one persistent handler (at 1) and one once-handler
  (at 2) of type \<open>T\<close>; a session whose bridge is enabled and whose subscriptions succeed.
\<close>

definition hT :: "nat \<Rightarrow> EventHandler option" where
  "hT n = Some \<lparr> Type = ''T'', Handle = n \<rparr>"


definition bridged_session :: Session where
  "bridged_session =
     empty_session \<lparr> NATS := Some (\<lambda>subject queue. Inr 7), NatsMode := 1, NatsQueueName := ''q'' \<rparr>"

subsection \<open>Notions for stating the properties of \<^verbatim>\<open>Move\<close>\<close>

text \<open>
  \<open>exact64 x\<close>: \<open>x\<close> is an integer that \<open>float64\<close> represents exactly. \<open>in_range\<close> is the
  test of the first loop of \<^verbatim>\<open>Move\<close>, \<open>id_of\<close> the id of the role at an address.
  \<open>shifted st r t cs d\<close> is the store \<open>st\<close> with the role at \<open>r\<close> put at position \<open>t\<close> and
  every role at an address of \<open>cs\<close> moved by \<open>d\<close>. \<open>five_roles\<close> is the guild with the
  roles g (the default), a, b, c, d at the positions 0 to 4.
\<close>

definition exact64 :: "int \<Rightarrow> bool" where
  "exact64 x = (\<bar>x\<bar> < 2 ^ 53)"

definition in_range :: "store \<Rightarrow> string \<Rightarrow> int \<Rightarrow> int \<Rightarrow> addr \<Rightarrow> bool" where
  "in_range st rid mn mx a =
     (case roles st a of None \<Rightarrow> False
      | Some role \<Rightarrow> ID role \<noteq> rid \<and> Position role \<le> mx \<and> Position role \<ge> mn)"

definition id_of :: "store \<Rightarrow> addr \<Rightarrow> string" where
  "id_of st a = (case roles st a of None \<Rightarrow> [] | Some role \<Rightarrow> ID role)"

definition shifted :: "store \<Rightarrow> addr \<Rightarrow> int \<Rightarrow> addr list \<Rightarrow> int \<Rightarrow> store" where
  "shifted st r t cs d =
     st\<lparr>roles := (\<lambda>x. if x = r then map_option (\<lambda>role. role\<lparr>Position := t\<rparr>) (roles st x)
                       else if x \<in> set cs
                       then map_option (\<lambda>role. role\<lparr>Position := Position role + d\<rparr>) (roles st x)
                       else roles st x)\<rparr>"

definition five_roles :: store where
  "five_roles = mk_store [(''g'', 0), (''a'', 1), (''b'', 2), (''c'', 3), (''d'', 4)] [0, 1, 2, 3, 4]"

section \<open>Properties of the reorderer\<close>

lemmas Move_eval =
  observe_def round_trip_def Move_def mk_store_def IsDefault_def Move_min_def Move_max_def
  float64_def int_of_float64_def Sort_def Reverse_def Less_def position_of_def

text \<open>
  C9, as stated: moving the default role fails with \<open>ErrUnmovableDefaultRole\<close> for every
  target, also for a target that is zero or negative. It does not: the bounds check
  comes first, and the default role moved to \<open>0\<close> fails with \<open>ErrRolePositionBounds\<close>.
\<close>

theorem Move_default_nonpositive_counterexample:
  "Move (mk_store [(''g'', 0), (''a'', 1)] [0, 1]) 0 0 \<noteq> Inl ErrUnmovableDefaultRole"
  by (simp add: Move_eval)

text \<open>
  C9, amended: moving the default role fails for every target, with
  \<open>ErrRolePositionBounds\<close> when the target is zero or negative and with
  \<open>ErrUnmovableDefaultRole\<close> otherwise (the role's own position included). The result
  carries no store and no batch: nothing was written and nothing is submitted.
\<close>

theorem Move_default_fails:
  assumes "roles st r = Some R" and "guilds st (Guild R) = Some G" and "ID R = GuildID G"
  shows "Move st r t = Inl (if t \<le> 0 then ErrRolePositionBounds else ErrUnmovableDefaultRole)"
  using assms by (simp add: Move_def IsDefault_def)

theorem Move_default_fails_witness:
  "Move (mk_store [(''g'', 0), (''a'', 1)] [0, 1]) 0 3 = Inl ErrUnmovableDefaultRole"
  using Move_default_fails [of "mk_store [(''g'', 0), (''a'', 1)] [0, 1]" 0
      "\<lparr> ID = ''g'', Position = 0, Guild = 0 \<rparr>" "\<lparr> GuildID = ''g'', Roles = [0, 1] \<rparr>" 3]
  by (simp add: mk_store_def)

text \<open>
  C4, as stated: with roles at positions 0 to 4, moving the role at 2 to 4 sorts the
  roles at 3 and 4 descending and submits (idAt4, 2), (idAt3, 3), (moved, 4).
  It does not: \<open>Less\<close> is \<open>>\<close> and \<open>Reverse\<close> turns it round, so the sort is ascending,
  also when the slice holds the roles from the highest down.
\<close>

theorem Move_2_to_4_descending_counterexample:
  "Sort (Reverse (Less (mk_store [(''g'', 0), (''a'', 1), (''b'', 2), (''c'', 3), (''d'', 4)]
                         [4, 3, 2, 1, 0]))) [4, 3] \<noteq> [4, 3]
   \<and> observe [] (Move (mk_store [(''g'', 0), (''a'', 1), (''b'', 2), (''c'', 3), (''d'', 4)]
                         [4, 3, 2, 1, 0]) 2 4)
     \<noteq> Inr ([], ''g'', [(''d'', 2), (''c'', 3), (''b'', 4)])"
  by (simp add: Move_eval)

text \<open>
  C4, amended: with roles at positions 0 to 4, moving the role at 2 to 4 collects the
  roles at 3 and 4, sorts them ascending, appends the moved role, and submits exactly
  (idAt3, 2), (idAt4, 3), (moved, 4) in that order, whether the slice lists the roles
  upwards or downwards; the positions become 0, 1, 4, 2, 3.
\<close>

theorem Move_2_to_4_edits:
  "collect (mk_store [(''g'', 0), (''a'', 1), (''b'', 2), (''c'', 3), (''d'', 4)] [4, 3, 2, 1, 0])
     ''b'' 2 4 [4, 3, 2, 1, 0] = Some [4, 3]
   \<and> Sort (Reverse (Less (mk_store [(''g'', 0), (''a'', 1), (''b'', 2), (''c'', 3), (''d'', 4)]
                           [4, 3, 2, 1, 0]))) [4, 3] = [3, 4]
   \<and> observe [0, 1, 2, 3, 4]
       (Move (mk_store [(''g'', 0), (''a'', 1), (''b'', 2), (''c'', 3), (''d'', 4)]
                [4, 3, 2, 1, 0]) 2 4)
     = Inr ([Some 0, Some 1, Some 4, Some 2, Some 3], ''g'',
            [(''c'', 2), (''d'', 3), (''b'', 4)])
   \<and> observe [0, 1, 2, 3, 4]
       (Move (mk_store [(''g'', 0), (''a'', 1), (''b'', 2), (''c'', 3), (''d'', 4)]
                [0, 1, 2, 3, 4]) 2 4)
     = Inr ([Some 0, Some 1, Some 4, Some 2, Some 3], ''g'',
            [(''c'', 2), (''d'', 3), (''b'', 4)])"
  by (simp add: Move_eval)


text \<open>
  C10, as stated: moving from \<open>P\<close> to \<open>T\<close> and back restores every position. It does not
  when the range has gaps: with roles at 0, 1 and 5, moving the role at 1 to 5 and back
  to 1 leaves the other role at 2.
\<close>

theorem round_trip_sparse_counterexample:
  "observe [0, 1, 2] (round_trip (mk_store [(''g'', 0), (''a'', 1), (''b'', 5)] [0, 1, 2]) 1 5 1)
   = Inr ([Some 0, Some 1, Some 2], ''g'', [(''a'', 1), (''b'', 2)])"
  by (simp add: Move_eval)

text \<open>
  C2, as stated: a move of another role never writes the default role's position and
  never names it in an edit. It does when the default role lies in the range: with the
  roles c, g (the default) and a all at position 0, moving a to 1 submits (c, 0), (g, 1),
  (a, 2) and the default role is at 1 afterwards.
\<close>

theorem Move_shifts_default_counterexample:
  "observe [1] (Move (mk_store [(''c'', 0), (''g'', 0), (''a'', 0)] [0, 1, 2]) 2 1)
   = Inr ([Some 1], ''g'', [(''c'', 0), (''g'', 1), (''a'', 2)])"
  by (simp add: Move_eval)

subsection \<open>The reorderer on a contiguous range\<close>

lemma float64_exact: "exact64 x \<Longrightarrow> float64 x = x"
  by (simp add: float64_def exact64_def)

lemma Move_min_exact: "exact64 a \<Longrightarrow> exact64 b \<Longrightarrow> Move_min a b = min a b"
  by (auto simp: Move_min_def float64_exact int_of_float64_def exact64_def min_def)

lemma Move_max_exact: "exact64 a \<Longrightarrow> exact64 b \<Longrightarrow> Move_max a b = max a b"
  by (auto simp: Move_max_def float64_exact int_of_float64_def exact64_def max_def)

lemma insertion_insort:
  "insertion (Reverse (Less st)) x ys = insort_key (position_of st) x ys"
  by (induction ys) (auto simp: Reverse_def Less_def)

lemma Sort_sort_key: "Sort (Reverse (Less st)) xs = sort_key (position_of st) xs"
  by (induction xs) (simp_all add: Sort_def insertion_insort sort_key_def)

lemma in_range_Some:
  "roles st a = Some role \<Longrightarrow>
   in_range st rid mn mx a = (ID role \<noteq> rid \<and> Position role \<le> mx \<and> Position role \<ge> mn)"
  by (simp add: in_range_def)

lemma collect_eq:
  "collect st rid mn mx as =
     (if \<forall>a \<in> set as. roles st a \<noteq> None then Some (filter (in_range st rid mn mx) as) else None)"
proof (induction as)
  case Nil
  then show ?case by simp
next
  case (Cons a as)
  show ?case
  proof (cases "roles st a")
    case None
    then show ?thesis by auto
  next
    case (Some role)
    then show ?thesis
      using Cons.IH by (simp add: in_range_Some)
  qed
qed

lemma assign_frame:
  "assign st p mx as = Some (st', es) \<Longrightarrow>
     guilds st' = guilds st
   \<and> (\<forall>x. x \<notin> set as \<longrightarrow> roles st' x = roles st x)
   \<and> (\<forall>e \<in> set es. \<exists>a \<in> set as. map_option ID (roles st a) = Some (fst e))"
proof (induction as arbitrary: st p st' es)
  case Nil
  then show ?case by simp
next
  case (Cons a as)
  show ?case
  proof (cases "p \<le> mx + 1")
    case False
    with Cons.prems show ?thesis by simp
  next
    case True
    with Cons.prems obtain role where role: "roles st a = Some role"
      by (auto split: option.splits)
    define st1 where "st1 = st\<lparr>roles := (roles st)(a \<mapsto> role\<lparr>Position := p\<rparr>)\<rparr>"
    from Cons.prems True role obtain es1 where
      rec: "assign st1 (p + 1) mx as = Some (st', es1)" and es: "es = (ID role, p) # es1"
      by (auto simp: st1_def split: option.splits)
    have ids: "map_option ID (roles st1 x) = map_option ID (roles st x)" for x
      using role by (simp add: st1_def)
    have other: "roles st1 x = roles st x" if "x \<noteq> a" for x
      using that by (simp add: st1_def)
    have g: "guilds st1 = guilds st"
      by (simp add: st1_def)
    from Cons.IH [OF rec] have ih1: "guilds st' = guilds st1"
      and ih2: "\<And>x. x \<notin> set as \<Longrightarrow> roles st' x = roles st1 x"
      and ih3: "\<And>e. e \<in> set es1 \<Longrightarrow> \<exists>a \<in> set as. map_option ID (roles st1 a) = Some (fst e)"
      by blast+
    have "guilds st' = guilds st"
      using ih1 g by simp
    moreover have "\<forall>x. x \<notin> set (a # as) \<longrightarrow> roles st' x = roles st x"
      using ih2 other by simp
    moreover have "\<forall>e \<in> set es. \<exists>b \<in> set (a # as). map_option ID (roles st b) = Some (fst e)"
    proof
      fix e assume "e \<in> set es"
      then consider "e = (ID role, p)" | "e \<in> set es1"
        using es by auto
      then show "\<exists>b \<in> set (a # as). map_option ID (roles st b) = Some (fst e)"
      proof cases
        case 1
        then show ?thesis using role by auto
      next
        case 2
        from ih3 [OF this] obtain b where "b \<in> set as" "map_option ID (roles st1 b) = Some (fst e)"
          by blast
        then show ?thesis using ids [of b] by auto
      qed
    qed
    ultimately show ?thesis by blast
  qed
qed

lemma assign_zip:
  assumes "distinct as" and "\<forall>a \<in> set as. roles st a \<noteq> None"
  shows "assign st p mx as =
           Some (st\<lparr>roles := (\<lambda>x. case map_of (zip as [p..mx + 1]) x of
                                     None \<Rightarrow> roles st x
                                   | Some q \<Rightarrow> map_option (\<lambda>role. role\<lparr>Position := q\<rparr>) (roles st x))\<rparr>,
                 map (\<lambda>(a, q). (id_of st a, q)) (zip as [p..mx + 1]))"
  using assms
proof (induction as arbitrary: st p)
  case Nil
  then show ?case by simp
next
  case (Cons a as)
  show ?case
  proof (cases "p \<le> mx + 1")
    case False
    then show ?thesis by simp
  next
    case True
    from Cons.prems obtain role where role: "roles st a = Some role"
      by auto
    define st1 where "st1 = st\<lparr>roles := (roles st)(a \<mapsto> role\<lparr>Position := p\<rparr>)\<rparr>"
    have up: "[p..mx + 1] = p # [p + 1..mx + 1]"
      using True by (rule upto_rec1)
    have a: "a \<notin> set as" and d: "distinct as"
      using Cons.prems by auto
    have alloc: "\<forall>b \<in> set as. roles st1 b \<noteq> None"
      using Cons.prems by (auto simp: st1_def)
    have ids: "id_of st1 b = id_of st b" for b
      using role by (simp add: st1_def id_of_def)
    have none: "map_of (zip as [p + 1..mx + 1]) a = None"
      using a by (auto simp: map_of_eq_None_iff dest: set_zip_leftD)
    have rec: "assign st1 (p + 1) mx as =
           Some (st1\<lparr>roles := (\<lambda>x. case map_of (zip as [p + 1..mx + 1]) x of
                                     None \<Rightarrow> roles st1 x
                                   | Some q \<Rightarrow> map_option (\<lambda>role. role\<lparr>Position := q\<rparr>) (roles st1 x))\<rparr>,
                 map (\<lambda>(a, q). (id_of st1 a, q)) (zip as [p + 1..mx + 1]))"
      by (rule Cons.IH [OF d alloc])
    have eq: "(\<lambda>x. case map_of (zip as [p + 1..mx + 1]) x of
                                     None \<Rightarrow> roles st1 x
                                   | Some q \<Rightarrow> map_option (\<lambda>role. role\<lparr>Position := q\<rparr>) (roles st1 x))
            = (\<lambda>x. case map_of (zip (a # as) [p..mx + 1]) x of
                                     None \<Rightarrow> roles st x
                                   | Some q \<Rightarrow> map_option (\<lambda>role. role\<lparr>Position := q\<rparr>) (roles st x))"
      using role none by (auto simp: up st1_def fun_eq_iff split: option.splits)
    have st_eq: "st1\<lparr>roles := F\<rparr> = st\<lparr>roles := F\<rparr>" for F
      by (simp add: st1_def)
    have ida: "id_of st a = ID role"
      using role by (simp add: id_of_def)
    have "assign st p mx (a # as) =
        Some (st1\<lparr>roles := (\<lambda>x. case map_of (zip as [p + 1..mx + 1]) x of
                                     None \<Rightarrow> roles st1 x
                                   | Some q \<Rightarrow> map_option (\<lambda>role. role\<lparr>Position := q\<rparr>) (roles st1 x))\<rparr>,
              (ID role, p) # map (\<lambda>(a, q). (id_of st1 a, q)) (zip as [p + 1..mx + 1]))"
      using True role rec by (simp add: st1_def)
    also have "\<dots> = Some (st\<lparr>roles := (\<lambda>x. case map_of (zip (a # as) [p..mx + 1]) x of
                                     None \<Rightarrow> roles st x
                                   | Some q \<Rightarrow> map_option (\<lambda>role. role\<lparr>Position := q\<rparr>) (roles st x))\<rparr>,
                 map (\<lambda>(a, q). (id_of st a, q)) (zip (a # as) [p..mx + 1]))"
      unfolding eq st_eq by (simp add: up ids ida)
    finally show ?thesis .
  qed
qed

lemma zip_map_same: "zip xs (map f xs) = map (\<lambda>x. (x, f x)) xs"
  by (induction xs) simp_all

lemma zip_map_same_append: "zip xs (map f xs @ ys) = map (\<lambda>x. (x, f x)) xs"
  by (induction xs) simp_all

lemma map_shift_upto: "map (\<lambda>q. q + d) [i..j] = [i + d..j + d]"
proof (induction "nat (j - i + 1)" arbitrary: i)
  case 0
  then show ?case by simp
next
  case (Suc n)
  then have le: "i \<le> j" by simp
  have "n = nat (j - (i + 1) + 1)" using Suc.hyps(2) by simp
  from Suc.hyps(1) [OF this] have ih: "map (\<lambda>q. q + d) [i + 1..j] = [i + 1 + d..j + d]" .
  have l: "[i..j] = i # [i + 1..j]"
    using le by (rule upto_rec1)
  have r: "[i + d..j + d] = (i + d) # [i + d + 1..j + d]"
    using le by (intro upto_rec1) simp
  have "i + 1 + d = i + d + 1" by simp
  then show ?case
    using ih by (simp only: l r list.map)
qed

lemma positions_sorted:
  assumes "distinct (map f cs)" and "f ` set cs = {a..b}"
  shows "map f (sort_key f cs) = [a..b]"
proof (rule sorted_distinct_set_unique)
  show "sorted (map f (sort_key f cs))" by (rule sorted_sort_key)
  show "distinct (map f (sort_key f cs))"
    using assms(1) by (simp add: distinct_map)
  show "sorted [a..b]" by simp
  show "distinct [a..b]" by simp
  show "set (map f (sort_key f cs)) = set [a..b]"
    using assms(2) by simp
qed

lemma shifted_eq:
  assumes "map_of Z = (\<lambda>x. if x = r then Some t else if x \<in> set cs then Some (position_of st x + d) else None)"
  shows "st\<lparr>roles := (\<lambda>x. case map_of Z x of
                           None \<Rightarrow> roles st x
                         | Some q \<Rightarrow> map_option (\<lambda>role. role\<lparr>Position := q\<rparr>) (roles st x))\<rparr>
         = shifted st r t cs d"
proof -
  have "(case map_of Z x of
           None \<Rightarrow> roles st x
         | Some q \<Rightarrow> map_option (\<lambda>role. role\<lparr>Position := q\<rparr>) (roles st x))
        = (if x = r then map_option (\<lambda>role. role\<lparr>Position := t\<rparr>) (roles st x)
           else if x \<in> set cs
           then map_option (\<lambda>role. role\<lparr>Position := Position role + d\<rparr>) (roles st x)
           else roles st x)" for x
    by (cases "roles st x") (simp_all add: assms position_of_def)
  then show ?thesis
    by (simp add: shifted_def)
qed

lemma map_of_graph:
  "map_of (map (\<lambda>a. (a, f a)) xs) = (\<lambda>x. if x \<in> set xs then Some (f x) else None)"
  by (induction xs) (auto simp: fun_eq_iff)

lemma Move_unfold:
  assumes "0 < t" and "roles st r = Some R" and "guilds st (Guild R) = Some G"
    and "ID R \<noteq> GuildID G" and "exact64 t" and "exact64 (Position R)"
    and "collect st (ID R) (min t (Position R)) (max t (Position R)) (Roles G) = Some cs"
  shows "Move st r t =
          (case assign st (min t (Position R)) (max t (Position R))
                  (if t = min t (Position R) then r # sort_key (position_of st) cs
                   else sort_key (position_of st) cs @ [r]) of
             None \<Rightarrow> Inl NilPointer
           | Some (st', edits) \<Rightarrow> Inr (st', GuildID G, edits))"
  using assms
  by (simp add: Move_def IsDefault_def Move_min_exact Move_max_exact Sort_sort_key Let_def)

lemma Move_contiguous:
  assumes t: "0 < t" and r: "roles st r = Some R" and G: "guilds st (Guild R) = Some G"
    and nd: "ID R \<noteq> GuildID G" and ex: "exact64 t" "exact64 (Position R)"
    and col: "collect st (ID R) (min t (Position R)) (max t (Position R)) (Roles G) = Some cs"
    and dist: "distinct (map (position_of st) cs)"
    and cover: "position_of st ` set cs = {min t (Position R)..max t (Position R)} - {Position R}"
  shows "Move st r t =
           Inr (shifted st r t cs (if t < Position R then 1 else - 1), GuildID G,
                (if t \<le> Position R
                 then (ID R, t) # map (\<lambda>a. (id_of st a, position_of st a + 1))
                                      (sort_key (position_of st) cs)
                 else map (\<lambda>a. (id_of st a, position_of st a - 1))
                          (sort_key (position_of st) cs) @ [(ID R, t)]))"
proof -
  let ?P = "Position R"
  let ?pos = "position_of st"
  let ?sorted = "sort_key ?pos cs"
  from col have alloc: "\<forall>a \<in> set (Roles G). roles st a \<noteq> None"
    and cs: "cs = filter (in_range st (ID R) (min t ?P) (max t ?P)) (Roles G)"
    by (simp_all add: collect_eq split: if_splits)
  have r_notin: "r \<notin> set cs"
    using r by (simp add: cs in_range_def)
  have cs_alloc: "\<forall>a \<in> set cs. roles st a \<noteq> None"
    using alloc by (simp add: cs)
  have dcs: "distinct cs"
    using dist by (simp add: distinct_map)
  have idr: "id_of st r = ID R"
    using r by (simp add: id_of_def)
  show ?thesis
  proof (cases "t \<le> ?P")
    case True
    then have mn: "min t ?P = t" and mx: "max t ?P = ?P" by simp_all
    have "?pos ` set cs = {t..?P - 1}"
      using cover True by (auto simp: mn mx)
    then have ps: "map ?pos ?sorted = [t..?P - 1]"
      using dist by (intro positions_sorted)
    have "[t + 1..?P] = map (\<lambda>q. q + 1) [t..?P - 1]"
      by (simp add: map_shift_upto)
    also have "\<dots> = map (\<lambda>a. ?pos a + 1) ?sorted"
      by (simp add: ps [symmetric] comp_def)
    finally have tail: "[t + 1..?P] = map (\<lambda>a. ?pos a + 1) ?sorted" .
    have "[t..?P + 1] = t # [t + 1..?P] @ [?P + 1]"
      using True by (simp add: upto_rec1 [of t "?P + 1"] upto_rec2 [of "t + 1" "?P + 1"])
    then have z: "zip (r # ?sorted) [t..?P + 1] = (r, t) # map (\<lambda>a. (a, ?pos a + 1)) ?sorted"
      by (simp add: tail zip_map_same_append)
    have m: "map_of (zip (r # ?sorted) [t..?P + 1])
             = (\<lambda>x. if x = r then Some t else if x \<in> set cs then Some (?pos x + (if t < ?P then 1 else - 1)) else None)"
    proof (cases "t < ?P")
      case True
      then show ?thesis
        by (simp add: z map_of_graph fun_eq_iff)
    next
      case False
      then have "cs = []"
        using \<open>?pos ` set cs = {t..?P - 1}\<close> True by auto
      with z show ?thesis
        by (simp add: fun_eq_iff)
    qed
    have "distinct (r # ?sorted)" and "\<forall>a \<in> set (r # ?sorted). roles st a \<noteq> None"
      using r r_notin dcs cs_alloc by simp_all
    from assign_zip [OF this, of t ?P]
    have "assign st t ?P (r # ?sorted)
          = Some (shifted st r t cs (if t < ?P then 1 else - 1),
                  map (\<lambda>(a, q). (id_of st a, q)) (zip (r # ?sorted) [t..?P + 1]))"
      unfolding shifted_eq [OF m] .
    then have "assign st t ?P (r # ?sorted)
          = Some (shifted st r t cs (if t < ?P then 1 else - 1),
                  (ID R, t) # map (\<lambda>a. (id_of st a, ?pos a + 1)) ?sorted)"
      by (simp add: z idr comp_def)
    then show ?thesis
      using True by (simp add: Move_unfold [OF t r G nd ex col] mn mx)
  next
    case False
    then have lt: "?P < t" by simp
    then have mn: "min t ?P = ?P" and mx: "max t ?P = t" by simp_all
    have "?pos ` set cs = {?P + 1..t}"
      using cover lt by (auto simp: mn mx)
    then have ps: "map ?pos ?sorted = [?P + 1..t]"
      using dist by (intro positions_sorted)
    have "[?P..t - 1] = map (\<lambda>q. q + (- 1)) [?P + 1..t]"
      using map_shift_upto [of "- 1" "?P + 1" t] by simp
    also have "\<dots> = map (\<lambda>a. ?pos a - 1) ?sorted"
      by (simp add: ps [symmetric] comp_def)
    finally have front: "[?P..t - 1] = map (\<lambda>a. ?pos a - 1) ?sorted" .
    have "[?P..t + 1] = [?P..t - 1] @ [t, t + 1]"
      using lt by (simp add: upto_rec2 [of ?P "t + 1"] upto_rec2 [of ?P t])
    then have z: "zip (?sorted @ [r]) [?P..t + 1] = map (\<lambda>a. (a, ?pos a - 1)) ?sorted @ [(r, t)]"
      by (simp add: front zip_map_same)
    have m: "map_of (zip (?sorted @ [r]) [?P..t + 1])
             = (\<lambda>x. if x = r then Some t else if x \<in> set cs then Some (?pos x + (if t < ?P then 1 else - 1)) else None)"
      using lt r_notin by (auto simp: z map_of_graph fun_eq_iff map_add_def)
    have "distinct (?sorted @ [r])" and "\<forall>a \<in> set (?sorted @ [r]). roles st a \<noteq> None"
      using r r_notin dcs cs_alloc by simp_all
    from assign_zip [OF this, of ?P t]
    have "assign st ?P t (?sorted @ [r])
          = Some (shifted st r t cs (if t < ?P then 1 else - 1),
                  map (\<lambda>(a, q). (id_of st a, q)) (zip (?sorted @ [r]) [?P..t + 1]))"
      unfolding shifted_eq [OF m] .
    then have "assign st ?P t (?sorted @ [r])
          = Some (shifted st r t cs (if t < ?P then 1 else - 1),
                  map (\<lambda>a. (id_of st a, ?pos a - 1)) ?sorted @ [(ID R, t)])"
      by (simp add: z idr comp_def)
    then show ?thesis
      using lt by (simp add: Move_unfold [OF t r G nd ex col] mn mx)
  qed
qed


lemma shifted_simps:
  "guilds (shifted st r t cs d) = guilds st"
  "roles st r = Some R \<Longrightarrow> roles (shifted st r t cs d) r = Some (R\<lparr>Position := t\<rparr>)"
  "x \<noteq> r \<Longrightarrow> x \<notin> set cs \<Longrightarrow> roles (shifted st r t cs d) x = roles st x"
  "x \<noteq> r \<Longrightarrow> x \<in> set cs \<Longrightarrow> roles st x = Some role \<Longrightarrow>
     roles (shifted st r t cs d) x = Some (role\<lparr>Position := Position role + d\<rparr>)"
  by (simp_all add: shifted_def)

lemma shifted_position:
  "roles st r = Some R \<Longrightarrow> position_of (shifted st r t cs d) r = t"
  "x \<noteq> r \<Longrightarrow> x \<in> set cs \<Longrightarrow> roles st x \<noteq> None \<Longrightarrow>
     position_of (shifted st r t cs d) x = position_of st x + d"
  "x \<noteq> r \<Longrightarrow> x \<notin> set cs \<Longrightarrow> position_of (shifted st r t cs d) x = position_of st x"
  by (auto simp: shifted_def position_of_def)


lemma five_roles_eval:
  "roles five_roles 0 = Some \<lparr> ID = ''g'', Position = 0, Guild = 0 \<rparr>"
  "roles five_roles 1 = Some \<lparr> ID = ''a'', Position = 1, Guild = 0 \<rparr>"
  "roles five_roles (Suc 0) = Some \<lparr> ID = ''a'', Position = 1, Guild = 0 \<rparr>"
  "roles five_roles 2 = Some \<lparr> ID = ''b'', Position = 2, Guild = 0 \<rparr>"
  "roles five_roles 3 = Some \<lparr> ID = ''c'', Position = 3, Guild = 0 \<rparr>"
  "roles five_roles 4 = Some \<lparr> ID = ''d'', Position = 4, Guild = 0 \<rparr>"
  "guilds five_roles 0 = Some \<lparr> GuildID = ''g'', Roles = [0, 1, 2, 3, 4] \<rparr>"
  by (simp_all add: five_roles_def mk_store_def)



lemma shifted_back:
  assumes "roles st r = Some R" and "Position R = P" and "r \<notin> set cs"
  shows "shifted (shifted st r t cs d) r P cs (- d) = st"
proof -
  have "roles (shifted (shifted st r t cs d) r P cs (- d)) x = roles st x" for x
    using assms by (cases "roles st x") (auto simp: shifted_def)
  then have "roles (shifted (shifted st r t cs d) r P cs (- d)) = roles st"
    by (rule ext)
  moreover have "guilds (shifted (shifted st r t cs d) r P cs (- d)) = guilds st"
    by (simp add: shifted_def)
  ultimately show ?thesis
    by (rule store.equality) simp
qed

text \<open>
  C10, amended: under the conditions of C3 and with the role's position \<open>P\<close> above zero,
  moving the role to \<open>T\<close> and then back to \<open>P\<close> succeeds twice and leaves the store exactly
  as it was before the first move.
\<close>

theorem round_trip_contiguous:
  assumes t: "0 < t" and P: "0 < Position R"
    and r: "roles st r = Some R" and G: "guilds st (Guild R) = Some G"
    and nd: "ID R \<noteq> GuildID G" and ex: "exact64 t" "exact64 (Position R)"
    and col: "collect st (ID R) (min t (Position R)) (max t (Position R)) (Roles G) = Some cs"
    and dist: "distinct (map (position_of st) cs)"
    and cover: "position_of st ` set cs = {min t (Position R)..max t (Position R)} - {Position R}"
  shows "\<exists>es. round_trip st r t (Position R) = Inr (st, GuildID G, es)"
proof -
  let ?P = "Position R"
  let ?d = "if t < ?P then 1 else - 1 :: int"
  let ?st1 = "shifted st r t cs ?d"
  let ?R1 = "R\<lparr>Position := t\<rparr>"
  from col have alloc: "\<forall>a \<in> set (Roles G). roles st a \<noteq> None"
    and cs: "cs = filter (in_range st (ID R) (min t ?P) (max t ?P)) (Roles G)"
    by (simp_all add: collect_eq split: if_splits)
  have r_notin: "r \<notin> set cs"
    using r by (simp add: cs in_range_def)
  have cs_alloc: "\<forall>a \<in> set cs. roles st a \<noteq> None"
    using alloc by (simp add: cs)
  have pos1: "position_of ?st1 a = position_of st a + ?d" if "a \<in> set cs" for a
    using that r_notin cs_alloc by (intro shifted_position(2)) auto
  have empty: "cs = []" if "t = ?P"
    using cover that by auto
  note M = Move_contiguous [OF t r G nd ex col dist cover]
  have r1: "roles ?st1 r = Some ?R1"
    using r by (rule shifted_simps(2))
  have G1: "guilds ?st1 (Guild ?R1) = Some G"
    using G by (simp add: shifted_simps(1))
  have nd1: "ID ?R1 \<noteq> GuildID G"
    using nd by simp
  have range1: "in_range ?st1 (ID R) (min t ?P) (max t ?P) a = in_range st (ID R) (min t ?P) (max t ?P) a"
    if a: "a \<in> set (Roles G)" for a
  proof (cases "a = r")
    case True
    then show ?thesis using r by (simp add: in_range_def shifted_def)
  next
    case nr: False
    from alloc a obtain role where role: "roles st a = Some role" by auto
    show ?thesis
    proof (cases "a \<in> set cs")
      case False
      then show ?thesis using nr by (simp add: in_range_def shifted_simps(3))
    next
      case True
      then have in0: "in_range st (ID R) (min t ?P) (max t ?P) a"
        by (simp add: cs)
      have "position_of st a \<in> {min t ?P..max t ?P} - {?P}"
        using cover True by blast
      then have "min t ?P \<le> Position role + ?d \<and> Position role + ?d \<le> max t ?P"
        using role by (auto simp: position_of_def split: if_splits)
      then have "in_range ?st1 (ID R) (min t ?P) (max t ?P) a"
        using in0 role nr True by (simp add: in_range_def shifted_simps(4) [OF nr True role])
      then show ?thesis using in0 by simp
    qed
  qed
  have col1: "collect ?st1 (ID ?R1) (min ?P (Position ?R1)) (max ?P (Position ?R1)) (Roles G) = Some cs"
  proof -
    have "\<forall>a \<in> set (Roles G). roles ?st1 a \<noteq> None"
      using alloc by (auto simp: shifted_def)
    moreover have "filter (in_range ?st1 (ID R) (min t ?P) (max t ?P)) (Roles G) = cs"
      unfolding cs [symmetric] using range1 by (subst cs) (rule filter_cong [OF refl])
    ultimately show ?thesis
      by (simp add: collect_eq min.commute max.commute)
  qed
  have map1: "map (position_of ?st1) cs = map (\<lambda>a. position_of st a + ?d) cs"
    using pos1 by simp
  have dist1: "distinct (map (position_of ?st1) cs)"
    using dist unfolding map1 by (simp add: distinct_map inj_on_def)
  have cover1: "position_of ?st1 ` set cs
                = {min ?P (Position ?R1)..max ?P (Position ?R1)} - {Position ?R1}"
  proof -
    have "position_of ?st1 ` set cs = (\<lambda>q. q + ?d) ` (position_of st ` set cs)"
      using pos1 by (auto simp: image_iff)
    also have "\<dots> = (\<lambda>q. q + ?d) ` ({min t ?P..max t ?P} - {?P})"
      by (simp only: cover)
    also have "\<dots> = {min ?P t..max ?P t} - {t}"
    proof (cases "t < ?P")
      case True
      then have "{min t ?P..max t ?P} - {?P} = {t..?P - 1}"
        and "{min ?P t..max ?P t} - {t} = {t + 1..?P}" by auto
      then show ?thesis
        using True image_add_atLeastAtMost' [of 1 t "?P - 1"] by simp
    next
      case False
      then have "{min t ?P..max t ?P} - {?P} = {?P + 1..t}"
        and "{min ?P t..max ?P t} - {t} = {?P..t - 1}" by auto
      then show ?thesis
        using False image_add_atLeastAtMost' [of "- 1" "?P + 1" t] by simp
    qed
    finally show ?thesis by simp
  qed
  have ex1: "exact64 ?P" "exact64 (Position ?R1)"
    using ex by simp_all
  note M1 = Move_contiguous [OF P r1 G1 nd1 ex1 col1 dist1 cover1]
  have restored: "shifted ?st1 r ?P cs (if ?P < Position ?R1 then 1 else - 1) = st"
  proof (cases "t = ?P")
    case True
    have "shifted (shifted st r t [] d) r ?P [] d' = shifted (shifted st r t [] 1) r ?P [] (- 1)" for d d'
      by (simp add: shifted_def cong: if_cong)
    then show ?thesis
      using shifted_back [OF r refl, of "[]" t 1] empty True by simp
  next
    case False
    then have "(if ?P < Position ?R1 then 1 else - 1) = - ?d"
      by auto
    then show ?thesis
      using shifted_back [OF r refl r_notin, of t ?d] by simp
  qed
  have "\<exists>es. Move ?st1 r ?P = Inr (st, GuildID G, es)"
    unfolding M1 restored by blast
  then show ?thesis
    by (simp add: round_trip_def M)
qed

theorem round_trip_contiguous_witness:
  "\<exists>es. round_trip five_roles 4 1 4 = Inr (five_roles, ''g'', es)"
proof -
  let ?R = "\<lparr> ID = ''d'', Position = 4, Guild = 0 \<rparr>"
  let ?G = "\<lparr> GuildID = ''g'', Roles = [0, 1, 2, 3, 4] \<rparr>"
  have h: "0 < (1 :: int)" "0 < Position ?R"
    "roles five_roles 4 = Some ?R" "guilds five_roles (Guild ?R) = Some ?G"
    "ID ?R \<noteq> GuildID ?G" "exact64 1" "exact64 (Position ?R)"
    "collect five_roles (ID ?R) (min 1 (Position ?R)) (max 1 (Position ?R)) (Roles ?G) = Some [1, 2, 3]"
    "distinct (map (position_of five_roles) [1, 2, 3])"
    "position_of five_roles ` set [1, 2, 3] = {min 1 (Position ?R)..max 1 (Position ?R)} - {Position ?R}"
    by (auto simp: five_roles_eval position_of_def exact64_def)
  from round_trip_contiguous [OF h] show ?thesis
    by simp
qed

lemma assign_total:
  "\<forall>a \<in> set as. roles st a \<noteq> None \<Longrightarrow> \<exists>st' es. assign st p mx as = Some (st', es)"
proof (induction as arbitrary: st p)
  case Nil
  then show ?case by simp
next
  case (Cons a as)
  then obtain role where role: "roles st a = Some role" by auto
  have "\<forall>b \<in> set as. roles (st\<lparr>roles := (roles st)(a \<mapsto> role\<lparr>Position := p\<rparr>)\<rparr>) b \<noteq> None"
    using Cons.prems by simp
  from Cons.IH [OF this, of "p + 1"] show ?case
    using role by auto
qed

text \<open>
  C2, amended: for a role that is not the default role, a target above zero, and target
  and position within \<open>2 ^ 53\<close> in magnitude: if every role of the guild that carries the
  guild's id lies outside \<open>[lo, hi]\<close> (as the default role at position 0 does when the
  moved role is at 1 or above), the move succeeds, leaves every role with the guild's id
  as it was, and records no edit that names the guild's id.
\<close>

theorem Move_keeps_default:
  assumes t: "0 < t" and r: "roles st r = Some R" and G: "guilds st (Guild R) = Some G"
    and nd: "ID R \<noteq> GuildID G" and ex: "exact64 t" "exact64 (Position R)"
    and alloc: "\<forall>a \<in> set (Roles G). roles st a \<noteq> None"
    and d: "roles st d = Some D" "ID D = GuildID G"
    and outside: "\<forall>a \<in> set (Roles G). \<forall>role. roles st a = Some role \<and> ID role = GuildID G \<longrightarrow>
                    Position role < min t (Position R) \<or> max t (Position R) < Position role"
  shows "\<exists>st' es. Move st r t = Inr (st', GuildID G, es)
           \<and> roles st' d = Some D \<and> GuildID G \<notin> fst ` set es"
proof -
  let ?mn = "min t (Position R)" and ?mx = "max t (Position R)"
  define cs where "cs = filter (in_range st (ID R) ?mn ?mx) (Roles G)"
  define combined where "combined = (if t = ?mn then r # sort_key (position_of st) cs
                   else sort_key (position_of st) cs @ [r])"
  have col: "collect st (ID R) ?mn ?mx (Roles G) = Some cs"
    using alloc by (simp add: collect_eq cs_def)
  have set_c: "set combined = insert r (set cs)"
    by (simp add: combined_def)
  have "\<forall>a \<in> set combined. roles st a \<noteq> None"
    unfolding set_c using r alloc by (auto simp: cs_def)
  from assign_total [OF this] obtain st' es where
    as: "assign st ?mn ?mx combined = Some (st', es)" by blast
  have M: "Move st r t = Inr (st', GuildID G, es)"
    using as by (simp add: Move_unfold [OF t r G nd ex col] combined_def)
  note F = assign_frame [OF as]
  have no_default: "map_option ID (roles st a) \<noteq> Some (GuildID G)" if "a \<in> set combined" for a
  proof (cases "a = r")
    case True
    then show ?thesis using r nd by simp
  next
    case False
    with that have a: "a \<in> set (Roles G)" and rg: "in_range st (ID R) ?mn ?mx a"
      unfolding set_c by (simp_all add: cs_def)
    from alloc a obtain role where role: "roles st a = Some role" by auto
    from rg role have "?mn \<le> Position role \<and> Position role \<le> ?mx"
      by (simp add: in_range_def)
    with outside a role have "ID role \<noteq> GuildID G"
      by fastforce
    then show ?thesis using role by simp
  qed
  have "d \<notin> set combined"
    using no_default [of d] d by auto
  then have "roles st' d = Some D"
    using F d by simp
  moreover have "GuildID G \<notin> fst ` set es"
  proof
    assume "GuildID G \<in> fst ` set es"
    then obtain e where "e \<in> set es" "fst e = GuildID G" by auto
    with F obtain a where "a \<in> set combined" "map_option ID (roles st a) = Some (GuildID G)"
      by metis
    then show False using no_default by blast
  qed
  ultimately show ?thesis using M by blast
qed

theorem Move_keeps_default_witness:
  "\<exists>st' es. Move five_roles 1 3 = Inr (st', ''g'', es)
      \<and> roles st' 0 = Some \<lparr> ID = ''g'', Position = 0, Guild = 0 \<rparr> \<and> ''g'' \<notin> fst ` set es"
proof -
  let ?R = "\<lparr> ID = ''a'', Position = 1, Guild = 0 \<rparr>"
  let ?G = "\<lparr> GuildID = ''g'', Roles = [0, 1, 2, 3, 4] \<rparr>"
  let ?D = "\<lparr> ID = ''g'', Position = 0, Guild = 0 \<rparr>"
  have h: "0 < (3 :: int)" "roles five_roles 1 = Some ?R" "guilds five_roles (Guild ?R) = Some ?G"
    "ID ?R \<noteq> GuildID ?G" "exact64 3" "exact64 (Position ?R)"
    "\<forall>a \<in> set (Roles ?G). roles five_roles a \<noteq> None"
    "roles five_roles 0 = Some ?D" "ID ?D = GuildID ?G"
    "\<forall>a \<in> set (Roles ?G). \<forall>role. roles five_roles a = Some role \<and> ID role = GuildID ?G \<longrightarrow>
        Position role < min 3 (Position ?R) \<or> max 3 (Position ?R) < Position role"
    by (auto simp: five_roles_eval exact64_def)
  from Move_keeps_default [OF h] show ?thesis
    by simp
qed

section \<open>Properties of the registry, the dispatcher and the bridge\<close>

lemmas registry_eval =
  tables_def hT_def AddHandler_def AddHandlerOnce_def addEventHandler_def addEventHandlerOnce_def
  subscribe_def go_append_def nil_def empty_session_def bridged_session_def invoke_def
  removeEventHandlerInstance_def interfaceEventType_def Let_def


lemma invokes_fire [simp]: "invokes a (fire s i eh) = (at eh = a)"
  by (simp add: fire_def)

lemma fired_append [simp]: "fired a (xs @ ys) = fired a xs + fired a ys"
  by (simp add: fired_def)




subsection \<open>One pass of \<^verbatim>\<open>handle\<close>\<close>





subsection \<open>\<^verbatim>\<open>onInterface\<close> and \<^verbatim>\<open>handleEvent\<close>\<close>

















text \<open>
  C1, on the code: the function returned for a once-handler does not remove exactly that
  entry. With nothing registered persistently under the tag it panics; with two
  persistent handlers (at 0 and 1) and the once-handler (at 2), it leaves the once table
  holding the persistent handler at 1.
\<close>

theorem remove_once_handler_evaluated:
  "(let (s1, tok1, tr1) = AddHandlerOnce grow empty_session (hT 1)
    in map_option (\<lambda>s. tables s ''T'') (invoke grow tok1 s1)) = None
   \<and> (let (s1, tok1, tr1) = AddHandler grow empty_session (hT 1);
          (s2, tok2, tr2) = AddHandler grow s1 (hT 2);
          (s3, tok3, tr3) = AddHandlerOnce grow s2 (hT 3)
      in (tables s3 ''T'', map_option (\<lambda>s. tables s ''T'') (invoke grow tok3 s3)))
     = (([0, 1], [2]), Some ([0, 1], [1]))"
  by (simp add: registry_eval)

text \<open>
  C8, on the code: with the bridge enabled and a subscription that succeeds, a second
  \<^verbatim>\<open>AddHandler\<close> for the same tag subscribes again, since nothing was recorded after the
  first; and \<^verbatim>\<open>AddHandlerOnce\<close> does not subscribe at all.
\<close>

theorem AddHandler_subscribes_again_evaluated:
  "(let (s1, tok1, tr1) = AddHandler grow bridged_session (hT 1);
        (s2, tok2, tr2) = AddHandler grow s1 (hT 2)
    in (tr1, natsSubscriptions s1 ''T'', tr2, natsSubscriptions s2 ''T''))
   = ([Log LogInformational ''Subscribing to NATS event: %s'', QueueSubscribe ''T'' ''q'',
       Log LogInformational ''%v''],
      None,
      [Log LogInformational ''Subscribing to NATS event: %s'', QueueSubscribe ''T'' ''q'',
       Log LogInformational ''%v''],
      None)
   \<and> snd (snd (AddHandlerOnce grow bridged_session (hT 3))) = []"
  by (simp add: registry_eval)

end
